theory Spec2Isabelle
  imports Main
begin

section \<open>The escape tables and the scalar escaper of genshi/_speedups.c\<close>

text \<open>
  A \<open>Py_UNICODE\<close> is one unit of a Python string buffer. Its values are code points,
  never negative; the model reads them as natural numbers. Buffer sizes and the counters
  \<open>delta\<close>, \<open>erepl\<close>, \<open>delta_len\<close> are \<open>Py_ssize_t\<close> in the source; every one of them is
  bounded by five times the length of an existing string, so they are natural numbers here.
\<close>

type_synonym Py_UNICODE = nat

text \<open>
  What the C code can do beyond returning an object: raise a Python exception (return
  \<open>NULL\<close> with the error indicator set) or leave defined behaviour (a read or a write
  outside a buffer or a table, a use of a \<open>NULL\<close> pointer, a buffer handed out with
  cells never written).
\<close>

datatype exn = MemoryError | AttributeError | TypeError | ValueError | Exception string

datatype fault =
  Null_Pointer | Buffer_Out_Of_Range | Table_Index_Out_Of_Range | Uninitialised_Buffer

datatype failure = Raised exn | Fault fault

text \<open>\<open>#define ESCAPED_CHARS_TABLE_SIZE 63\<close>\<close>

definition ESCAPED_CHARS_TABLE_SIZE :: nat where
  "ESCAPED_CHARS_TABLE_SIZE = 63"

text \<open>
  \<open>UNICHR(x)\<close> decodes an ASCII literal and yields the pointer to its buffer: the
  units of the literal followed by the terminating zero.
\<close>

definition UNICHR :: "string \<Rightarrow> Py_UNICODE list" where
  "UNICHR x = map of_char x @ [0]"

text \<open>
  The two static tables after \<open>init_constants\<close>. Static storage starts zeroed: every
  replacement pointer is \<open>NULL\<close> (\<open>None\<close>) and every delta is 0 before the five
  assignments. The character constants of the source are
  \<open>'"' = 34\<close>, \<open>'\''  = 39\<close>, \<open>'&' = 38\<close>, \<open>'<' = 60\<close>, \<open>'>' = 62\<close>.
\<close>

definition escaped_chars_repl :: "Py_UNICODE list option list" where
  "escaped_chars_repl =
     (replicate ESCAPED_CHARS_TABLE_SIZE None)
       [34 := Some (UNICHR ''&#34;''),
        39 := Some (UNICHR ''&#39;''),
        38 := Some (UNICHR ''&amp;''),
        60 := Some (UNICHR ''&lt;''),
        62 := Some (UNICHR ''&gt;'')]"

definition escaped_chars_delta_len :: "nat list" where
  "escaped_chars_delta_len =
     (replicate ESCAPED_CHARS_TABLE_SIZE 0) [34 := 4, 39 := 4, 38 := 4, 60 := 3, 62 := 3]"

text \<open>Checked memory accesses: a table subscript, a read through a buffer pointer.\<close>

definition table_read :: "'a list \<Rightarrow> nat \<Rightarrow> fault + 'a" where
  "table_read tbl i = (if i < length tbl then Inr (tbl ! i) else Inl Table_Index_Out_Of_Range)"

definition peek :: "Py_UNICODE list \<Rightarrow> nat \<Rightarrow> fault + Py_UNICODE" where
  "peek buf p = (if p < length buf then Inr (buf ! p) else Inl Buffer_Out_Of_Range)"

text \<open>
  \<open>Py_UNICODE_COPY(dst + d, src + s, len)\<close>: \<open>memcpy\<close> of \<open>len\<close> units. The
  destination is the freshly allocated output buffer, whose cells are \<open>None\<close> until
  written.
\<close>

definition Py_UNICODE_COPY ::
  "Py_UNICODE option list \<Rightarrow> nat \<Rightarrow> Py_UNICODE list \<Rightarrow> nat \<Rightarrow> nat \<Rightarrow> fault + Py_UNICODE option list"
where
  "Py_UNICODE_COPY dst d src s len =
     (if s + len \<le> length src \<and> d + len \<le> length dst
      then Inr (take d dst @ map Some (take len (drop s src)) @ drop (d + len) dst)
      else Inl Buffer_Out_Of_Range)"

text \<open>
  The first loop of \<open>escape_unicode\<close> (lines 62-68). \<open>buf\<close> is the input buffer with
  its terminator, \<open>inp_end\<close> the index one past the last unit, \<open>inp\<close> the scan pointer
  as an index. The loop condition reads \<open>*inp\<close> before it compares the pointers.
\<close>

function measure_pass ::
  "Py_UNICODE list \<Rightarrow> nat \<Rightarrow> bool \<Rightarrow> nat \<Rightarrow> nat \<Rightarrow> nat \<Rightarrow> fault + (nat \<times> nat)"
where
  "measure_pass buf inp_end quotes inp delta erepl =
     (if inp < length buf then
        (if buf ! inp \<noteq> 0 \<or> inp < inp_end then
           (if buf ! inp < ESCAPED_CHARS_TABLE_SIZE \<and>
               (quotes \<or> (buf ! inp \<noteq> 34 \<and> buf ! inp \<noteq> 39)) then
              (case table_read escaped_chars_delta_len (buf ! inp) of
                 Inl f \<Rightarrow> Inl f
               | Inr d \<Rightarrow>
                   measure_pass buf inp_end quotes (inp + 1)
                     (delta + d) (erepl + (if d \<noteq> 0 then 1 else 0)))
            else measure_pass buf inp_end quotes (inp + 1) delta erepl)
         else Inr (delta, erepl))
      else Inl Buffer_Out_Of_Range)"
  by pat_completeness auto
termination
  by (relation "measure (\<lambda>(buf, inp_end, quotes, inp, delta, erepl). length buf - inp)") auto

text \<open>
  The inner loop (lines 84-93): look for the next substitution from \<open>next_escp\<close> on.
  The third conjunct of the condition assigns \<open>delta_len\<close> whenever it is evaluated;
  on a hit \<open>delta_len\<close> is incremented and the loop is left.
\<close>

function find_next ::
  "Py_UNICODE list \<Rightarrow> nat \<Rightarrow> bool \<Rightarrow> nat \<Rightarrow> nat \<Rightarrow> fault + (nat \<times> nat)"
where
  "find_next buf inp_end quotes next_escp delta_len =
     (if next_escp < inp_end then
        (case peek buf next_escp of
           Inl f \<Rightarrow> Inl f
         | Inr c \<Rightarrow>
             (if c < ESCAPED_CHARS_TABLE_SIZE \<and> (quotes \<or> (c \<noteq> 34 \<and> c \<noteq> 39)) then
                (case table_read escaped_chars_delta_len c of
                   Inl f \<Rightarrow> Inl f
                 | Inr d \<Rightarrow>
                     (if d \<noteq> 0 then Inr (next_escp, d + 1)
                      else find_next buf inp_end quotes (next_escp + 1) d))
              else find_next buf inp_end quotes (next_escp + 1) delta_len))
      else Inr (next_escp, delta_len))"
  by pat_completeness auto
termination
  by (relation "measure (\<lambda>(buf, inp_end, quotes, next_escp, delta_len). inp_end - next_escp)")
    auto

text \<open>
  One round of the outer loop (lines 84-105): find the next substitution, copy the run
  before it, copy its replacement, step over it. The round yields the new \<open>inp\<close>,
  \<open>outp\<close>, \<open>delta_len\<close> and output buffer.
\<close>

definition place_one ::
  "Py_UNICODE list \<Rightarrow> nat \<Rightarrow> bool \<Rightarrow> nat \<Rightarrow> nat \<Rightarrow> nat \<Rightarrow> Py_UNICODE option list \<Rightarrow>
   fault + (nat \<times> nat \<times> nat \<times> Py_UNICODE option list)"
where
  "place_one buf inp_end quotes inp outp delta_len out =
     (case find_next buf inp_end quotes inp delta_len of
        Inl f \<Rightarrow> Inl f
      | Inr (next_escp, delta_len') \<Rightarrow>
          (case (if next_escp > inp
                 then (case Py_UNICODE_COPY out outp buf inp (next_escp - inp) of
                         Inl f \<Rightarrow> Inl f
                       | Inr out1 \<Rightarrow> Inr (out1, outp + (next_escp - inp)))
                 else Inr (out, outp)) of
             Inl f \<Rightarrow> Inl f
           | Inr (out1, outp1) \<Rightarrow>
               (case peek buf next_escp of
                  Inl f \<Rightarrow> Inl f
                | Inr c \<Rightarrow>
                    (case table_read escaped_chars_repl c of
                       Inl f \<Rightarrow> Inl f
                     | Inr None \<Rightarrow> Inl Null_Pointer
                     | Inr (Some repl) \<Rightarrow>
                         (case Py_UNICODE_COPY out1 outp1 repl 0 delta_len' of
                            Inl f \<Rightarrow> Inl f
                          | Inr out2 \<Rightarrow>
                              Inr (next_escp + 1, outp1 + delta_len', delta_len', out2))))))"

text \<open>The outer loop \<open>while (erepl-- > 0)\<close> (lines 82-106).\<close>

fun place_loop ::
  "Py_UNICODE list \<Rightarrow> nat \<Rightarrow> bool \<Rightarrow> nat \<Rightarrow> nat \<Rightarrow> nat \<Rightarrow> nat \<Rightarrow> Py_UNICODE option list \<Rightarrow>
   fault + (nat \<times> nat \<times> Py_UNICODE option list)"
where
  "place_loop buf inp_end quotes 0 inp outp delta_len out = Inr (inp, outp, out)"
| "place_loop buf inp_end quotes (Suc erepl) inp outp delta_len out =
     (case place_one buf inp_end quotes inp outp delta_len out of
        Inl f \<Rightarrow> Inl f
      | Inr (inp', outp', delta_len', out') \<Rightarrow>
          place_loop buf inp_end quotes erepl inp' outp' delta_len' out')"

text \<open>
  The second pass as a whole (lines 80-108), on an output buffer of \<open>out_size\<close> cells
  not yet written: the outer loop, then the copy of what follows the last substitution.
  The result is the buffer as the caller will read it, so every cell must have been
  written.
\<close>

definition fill_pass ::
  "Py_UNICODE list \<Rightarrow> nat \<Rightarrow> bool \<Rightarrow> nat \<Rightarrow> nat \<Rightarrow> fault + Py_UNICODE list"
where
  "fill_pass buf inp_end quotes erepl out_size =
     (case place_loop buf inp_end quotes erepl 0 0 0 (replicate out_size None) of
        Inl f \<Rightarrow> Inl f
      | Inr (inp, outp, out) \<Rightarrow>
          (case (if inp < inp_end then Py_UNICODE_COPY out outp buf inp (inp_end - inp)
                 else Inr out) of
             Inl f \<Rightarrow> Inl f
           | Inr out' \<Rightarrow>
               (if list_all (\<lambda>c. c \<noteq> None) out' then Inr (map the out')
                else Inl Uninitialised_Buffer)))"

section \<open>Python values as the dispatcher observes them\<close>

text \<open>
  Types form the chain the dispatcher's type checks walk: \<open>bool\<close> derives from
  \<open>int\<close>, \<open>genshi.core.Markup\<close> derives from \<open>str\<close>, \<open>Derived t\<close> is a class
  declared with base \<open>t\<close>.
\<close>

datatype pytype =
  Object_Type | Long_Type | Float_Type | Bool_Type | None_Type | Unicode_Type | Markup_Type
  | Derived pytype

primrec tp_mro :: "pytype \<Rightarrow> pytype list" where
  "tp_mro Object_Type = [Object_Type]"
| "tp_mro Long_Type = [Long_Type, Object_Type]"
| "tp_mro Float_Type = [Float_Type, Object_Type]"
| "tp_mro Bool_Type = [Bool_Type, Long_Type, Object_Type]"
| "tp_mro None_Type = [None_Type, Object_Type]"
| "tp_mro Unicode_Type = [Unicode_Type, Object_Type]"
| "tp_mro Markup_Type = [Markup_Type, Unicode_Type, Object_Type]"
| "tp_mro (Derived t) = Derived t # tp_mro t"

definition PyType_IsSubtype :: "pytype \<Rightarrow> pytype \<Rightarrow> bool" where
  "PyType_IsSubtype a b = (b \<in> set (tp_mro a))"

text \<open>
  An object is what the dispatcher can observe of it: its address (identity), its type,
  its unit buffer when it is a string, the outcome of its type's \<open>__str__\<close> on it, and
  the outcome of looking up \<open>__html__\<close> on it. \<open>__str__\<close> raises, or returns a
  newly made exact string with a given text (\<open>Str_New\<close>), or returns an object that
  exists already (\<open>Str_Existing\<close>): any object, also an instance of a class derived
  from \<open>str\<close> that has a \<open>__str__\<close> of its own. The lookup of \<open>__html__\<close>
  raises, or finds a method whose call returns the object itself, returns another object,
  or raises.
\<close>

datatype pyobject =
  PyObject (ob_addr: nat) (ob_type: pytype) (unicode_data: "Py_UNICODE list")
    (tp_str: "exn + str_result") (getattr_html: "exn + html_method")
and html_method = Html_Self | Html_Call "exn + pyobject"
and str_result = Str_New "Py_UNICODE list" | Str_Existing pyobject

text \<open>
  The part of the process state the module touches: how many units the allocator can
  still hand out, the address of the next new object, and a ghost counter of the entries
  into \<open>escape_unicode\<close> (the C code keeps no such counter; it makes "the scalar escaper
  was not invoked" a statement about the state).
\<close>

record world =
  mem_avail :: nat
  next_addr :: nat
  escape_unicode_calls :: nat

definition PyObject_TypeCheck :: "pyobject \<Rightarrow> pytype \<Rightarrow> bool" where
  "PyObject_TypeCheck ob tp = PyType_IsSubtype (ob_type ob) tp"

definition PyLong_CheckExact :: "pyobject \<Rightarrow> bool" where
  "PyLong_CheckExact ob = (ob_type ob = Long_Type)"

definition PyFloat_CheckExact :: "pyobject \<Rightarrow> bool" where
  "PyFloat_CheckExact ob = (ob_type ob = Float_Type)"

definition PyBool_Check :: "pyobject \<Rightarrow> bool" where
  "PyBool_Check ob = (ob_type ob = Bool_Type)"

text \<open>\<open>text == Py_None\<close>: \<open>None\<close> is the only instance of its type.\<close>

definition is_Py_None :: "pyobject \<Rightarrow> bool" where
  "is_Py_None ob = (ob_type ob = None_Type)"

definition PyUnicode_Check :: "pyobject \<Rightarrow> bool" where
  "PyUnicode_Check ob = PyType_IsSubtype (ob_type ob) Unicode_Type"

text \<open>
  An exact \<open>str\<close> object. It has no \<open>__html__\<close>; \<open>str.__str__\<close> would give a
  string of the same text, but \<open>PyObject_Str\<close> returns an exact string without
  calling it.
\<close>

definition unicode_object :: "nat \<Rightarrow> Py_UNICODE list \<Rightarrow> pyobject" where
  "unicode_object addr data =
     PyObject addr Unicode_Type data (Inr (Str_New data)) (Inl AttributeError)"

text \<open>
  \<open>PyUnicode_FromUnicode(NULL, size)\<close>: a new string object whose buffer has
  \<open>size\<close> cells not yet written, or \<open>NULL\<close> with \<open>MemoryError\<close> set when the allocator
  cannot provide them. It yields the address of the new object.
\<close>

definition PyUnicode_FromUnicode :: "world \<Rightarrow> nat \<Rightarrow> (nat \<times> world) option" where
  "PyUnicode_FromUnicode w n =
     (if n \<le> mem_avail w
      then Some (next_addr w, w\<lparr>mem_avail := mem_avail w - n, next_addr := next_addr w + 1\<rparr>)
      else None)"

text \<open>
  \<open>PyObject_Str(v)\<close>, as the host runtime defines it: an exact string is returned as
  it is; otherwise the type's \<open>__str__\<close> runs, and what it returns is the result,
  unchanged, provided it is a string or an instance of a class derived from \<open>str\<close>
  (\<open>TypeError\<close> if it is not). A newly made string takes the next address.
\<close>

definition PyObject_Str :: "world \<Rightarrow> pyobject \<Rightarrow> failure + pyobject \<times> world" where
  "PyObject_Str w v =
     (if ob_type v = Unicode_Type then Inr (v, w)
      else (case tp_str v of
              Inl e \<Rightarrow> Inl (Raised e)
            | Inr (Str_New t) \<Rightarrow>
                Inr (unicode_object (next_addr w) t, w\<lparr>next_addr := next_addr w + 1\<rparr>)
            | Inr (Str_Existing s) \<Rightarrow>
                (if PyUnicode_Check s then Inr (s, w) else Inl (Raised TypeError))))"

text \<open>
  Modelled from the spec: the safe-marked type \<open>genshi.core.Markup\<close> is not part of
  the C file, which only imports it and calls it. The spec gives it as "a safe-marked-value
  type constructible from a text sequence"; a value that is not a text sequence is wrapped
  around its default textual form. \<open>Markup_call w x\<close> is
  \<open>PyObject_CallFunctionObjArgs(markup, x, NULL)\<close>. \<open>Markup\<close> derives from
  \<open>str\<close> and is constructed as a \<open>str\<close> is: the argument is converted with
  \<open>PyObject_Str\<close>, also when it is an instance of a class derived from \<open>str\<close>,
  and the units of the string so obtained become the text of a new object of type
  \<open>Markup\<close>, whose \<open>__html__\<close> returns the object itself. The string of the
  conversion is released before the call returns, so the state gains the new object only.
\<close>

definition Markup_call :: "world \<Rightarrow> pyobject \<Rightarrow> failure + pyobject \<times> world" where
  "Markup_call w x =
     (case PyObject_Str w x of
        Inl f \<Rightarrow> Inl f
      | Inr (s, w1) \<Rightarrow>
          Inr (PyObject (next_addr w) Markup_Type (unicode_data s)
                 (Inr (Str_New (unicode_data s))) (Inr Html_Self),
               w\<lparr>next_addr := next_addr w + 1\<rparr>))"

text \<open>\<open>PyObject_CallObject(html, NULL)\<close> on the bound method found on \<open>text\<close>.\<close>

definition PyObject_CallObject ::
  "world \<Rightarrow> pyobject \<Rightarrow> html_method \<Rightarrow> failure + pyobject \<times> world"
where
  "PyObject_CallObject w text html =
     (case html of
        Html_Self \<Rightarrow> Inr (text, w)
      | Html_Call (Inl e) \<Rightarrow> Inl (Raised e)
      | Html_Call (Inr rv) \<Rightarrow> Inr (rv, w))"

section \<open>The two functions of the module\<close>

text \<open>
  \<open>escape_unicode(in, quotes)\<close> (lines 51-111). The input buffer is the string's
  units followed by the terminating zero every Python string buffer carries. A result
  \<open>Inl (Raised MemoryError)\<close> is the \<open>return NULL\<close> of line 78. The C \<open>int\<close>
  \<open>quotes\<close> is only ever tested for being non-zero, so it is a \<open>bool\<close> here.
  Reference counts are not modelled.
\<close>

definition escape_unicode :: "world \<Rightarrow> pyobject \<Rightarrow> bool \<Rightarrow> failure + pyobject \<times> world" where
  "escape_unicode w0 input quotes =
     (let w = w0\<lparr>escape_unicode_calls := escape_unicode_calls w0 + 1\<rparr>;
          buf = unicode_data input @ [0];
          inp_end = length (unicode_data input)
      in (case measure_pass buf inp_end quotes 0 0 0 of
            Inl f \<Rightarrow> Inl (Fault f)
          | Inr (delta, erepl) \<Rightarrow>
              (if erepl = 0 then Inr (input, w)
               else (case PyUnicode_FromUnicode w (inp_end + delta) of
                       None \<Rightarrow> Inl (Raised MemoryError)
                     | Some (addr, w') \<Rightarrow>
                         (case fill_pass buf inp_end quotes erepl (inp_end + delta) of
                            Inl f \<Rightarrow> Inl (Fault f)
                          | Inr data \<Rightarrow> Inr (unicode_object addr data, w'))))))"

text \<open>
  Lines 157-160 of \<open>escape\<close>, given the outcome \<open>s\<close> of \<open>escape_unicode\<close>. The
  code does not test \<open>s\<close>: when \<open>escape_unicode\<close> returned \<open>NULL\<close>, the argument
  list of the call of \<open>markup\<close> ends at once, and \<open>Py_DECREF(s)\<close> then dereferences
  the \<open>NULL\<close> pointer.
\<close>

definition wrap_result :: "failure + pyobject \<times> world \<Rightarrow> failure + pyobject \<times> world" where
  "wrap_result s =
     (case s of
        Inl (Raised e) \<Rightarrow> Inl (Fault Null_Pointer)
      | Inl (Fault f) \<Rightarrow> Inl (Fault f)
      | Inr (s', w) \<Rightarrow> Markup_call w s')"

text \<open>
  Lines 145-160 of \<open>escape\<close>: make the object a string if it is not one, escape it,
  wrap the result. What \<open>PyObject_Str\<close> returned is handed to \<open>escape_unicode\<close>
  as it is.
\<close>

definition escape_text :: "world \<Rightarrow> pyobject \<Rightarrow> bool \<Rightarrow> failure + pyobject \<times> world" where
  "escape_text w text quotes =
     (if \<not> PyUnicode_Check text then
        (case PyObject_Str w text of
           Inl e \<Rightarrow> Inl e
         | Inr (unicode, w1) \<Rightarrow> wrap_result (escape_unicode w1 unicode quotes))
      else wrap_result (escape_unicode w text quotes))"

text \<open>
  \<open>escape(text, quotes)\<close> (lines 114-161), after argument parsing. The static
  \<open>markup\<close> is \<open>Markup_Type\<close>. When the lookup of \<open>__html__\<close> fails, whatever the
  exception, \<open>PyErr_Clear()\<close> drops it and the function goes on with lines 145-160.
\<close>

definition escape :: "world \<Rightarrow> pyobject \<Rightarrow> bool \<Rightarrow> failure + pyobject \<times> world" where
  "escape w text quotes =
     (if PyObject_TypeCheck text Markup_Type then Inr (text, w)
      else if PyLong_CheckExact text \<or> PyFloat_CheckExact text \<or> PyBool_Check text \<or>
              is_Py_None text
      then Markup_call w text
      else (case getattr_html text of
              Inr html \<Rightarrow> PyObject_CallObject w text html
            | Inl e \<Rightarrow> escape_text w text quotes))"

section \<open>What the escaper is to compute\<close>

text \<open>
  The reference the loops are compared with, written from the specification: which
  characters are substituted, the character reference each becomes, and the escaped text
  as the concatenation of the per-character results. \<open>extra_len\<close> is the delta length:
  what a character adds to the length of the text.
\<close>

definition substituted :: "bool \<Rightarrow> Py_UNICODE \<Rightarrow> bool" where
  "substituted quotes c = (c = 38 \<or> c = 60 \<or> c = 62 \<or> (quotes \<and> (c = 34 \<or> c = 39)))"

definition spec_char_ref :: "bool \<Rightarrow> Py_UNICODE \<Rightarrow> Py_UNICODE list" where
  "spec_char_ref quotes c =
     (if c = 38 then map of_char ''&amp;''
      else if c = 60 then map of_char ''&lt;''
      else if c = 62 then map of_char ''&gt;''
      else if quotes \<and> c = 34 then map of_char ''&#34;''
      else if quotes \<and> c = 39 then map of_char ''&#39;''
      else [c])"

definition spec_escape_scalar :: "bool \<Rightarrow> Py_UNICODE list \<Rightarrow> Py_UNICODE list" where
  "spec_escape_scalar quotes t = concat (map (spec_char_ref quotes) t)"

definition extra_len :: "bool \<Rightarrow> Py_UNICODE \<Rightarrow> nat" where
  "extra_len quotes c = length (spec_char_ref quotes c) - 1"

section \<open>The tables\<close>

lemma delta_len_read:
  "c < 63 \<Longrightarrow> table_read escaped_chars_delta_len c =
     Inr (if c = 34 \<or> c = 39 \<or> c = 38 then 4 else if c = 60 \<or> c = 62 then 3 else 0)"
  by (simp add: table_read_def escaped_chars_delta_len_def ESCAPED_CHARS_TABLE_SIZE_def
      nth_list_update)

lemma repl_read:
  "substituted quotes c \<Longrightarrow>
   table_read escaped_chars_repl c = Inr (Some (spec_char_ref quotes c @ [0]))"
  by (auto simp add: table_read_def escaped_chars_repl_def ESCAPED_CHARS_TABLE_SIZE_def
      substituted_def spec_char_ref_def UNICHR_def)

lemma not_substituted_ref: "\<not> substituted quotes c \<Longrightarrow> spec_char_ref quotes c = [c]"
  by (auto simp add: substituted_def spec_char_ref_def)

lemma substituted_small: "substituted quotes c \<Longrightarrow> c < 63 \<and> (quotes \<or> (c \<noteq> 34 \<and> c \<noteq> 39))"
  by (auto simp add: substituted_def)

lemma substituted_len: "substituted quotes c \<Longrightarrow> length (spec_char_ref quotes c) > 1"
  by (auto simp add: substituted_def spec_char_ref_def)


section \<open>The two passes compute the reference\<close>

declare measure_pass.simps [simp del] find_next.simps [simp del]

lemma extra_len_not_substituted: "\<not> substituted quotes c \<Longrightarrow> extra_len quotes c = 0"
  by (simp add: extra_len_def not_substituted_ref)

lemma length_spec_escape_scalar:
  "length (spec_escape_scalar quotes t) = length t + sum_list (map (extra_len quotes) t)"
proof (induction t)
  case Nil
  show ?case by (simp add: spec_escape_scalar_def)
next
  case (Cons c t)
  have "length (spec_char_ref quotes c) = 1 + extra_len quotes c"
    by (cases "substituted quotes c")
      (use substituted_len [of quotes c] in \<open>auto simp add: extra_len_def not_substituted_ref\<close>)
  with Cons show ?case by (simp add: spec_escape_scalar_def)
qed



lemma delta_len_read_extra:
  assumes "c < 63" and "quotes \<or> (c \<noteq> 34 \<and> c \<noteq> 39)"
  shows "table_read escaped_chars_delta_len c = Inr (extra_len quotes c)"
    and "extra_len quotes c \<noteq> 0 \<longleftrightarrow> substituted quotes c"
proof -
  show "table_read escaped_chars_delta_len c = Inr (extra_len quotes c)"
    using assms by (auto simp add: delta_len_read substituted_def spec_char_ref_def extra_len_def)
  show "extra_len quotes c \<noteq> 0 \<longleftrightarrow> substituted quotes c"
    using assms by (auto simp add: substituted_def spec_char_ref_def extra_len_def)
qed

lemma measure_pass_step:
  "measure_pass (pre @ c # rest) inp_end quotes (length pre) delta erepl =
     (if c \<noteq> 0 \<or> length pre < inp_end then
        measure_pass (pre @ c # rest) inp_end quotes (length pre + 1)
          (delta + extra_len quotes c) (erepl + (if substituted quotes c then 1 else 0))
      else Inr (delta, erepl))"
proof (cases "c < 63 \<and> (quotes \<or> (c \<noteq> 34 \<and> c \<noteq> 39))")
  case True
  then have r: "table_read escaped_chars_delta_len c = Inr (extra_len quotes c)"
    and z: "extra_len quotes c \<noteq> 0 \<longleftrightarrow> substituted quotes c"
    using delta_len_read_extra [of c quotes] by blast+
  have t: "c < ESCAPED_CHARS_TABLE_SIZE \<and> (quotes \<or> (c \<noteq> 34 \<and> c \<noteq> 39))"
    using True by (simp add: ESCAPED_CHARS_TABLE_SIZE_def)
  show ?thesis
    apply (subst measure_pass.simps)
    apply (simp only: nth_append_length length_append list.size t r z sum.case if_True)
    apply simp
    done
next
  case False
  then have n: "\<not> substituted quotes c"
    using substituted_small by blast
  have t: "\<not> (c < ESCAPED_CHARS_TABLE_SIZE \<and> (quotes \<or> (c \<noteq> 34 \<and> c \<noteq> 39)))"
    using False by (simp add: ESCAPED_CHARS_TABLE_SIZE_def)
  show ?thesis
    apply (subst measure_pass.simps)
    apply (simp only: nth_append_length length_append list.size t n if_False
        extra_len_not_substituted [OF n])
    apply simp
    done
qed


lemma measure_pass_run:
  "measure_pass (pre @ rest @ [0]) (length pre + length rest) quotes (length pre) delta erepl =
     Inr (delta + sum_list (map (extra_len quotes) rest),
          erepl + length (filter (substituted quotes) rest))"
proof (induction rest arbitrary: pre delta erepl)
  case Nil
  show ?case using measure_pass_step [of pre 0 "[]" "length pre" quotes delta erepl] by simp
next
  case (Cons c rest)
  have "measure_pass ((pre @ [c]) @ rest @ [0]) (length (pre @ [c]) + length rest) quotes
          (length (pre @ [c])) (delta + extra_len quotes c)
          (erepl + (if substituted quotes c then 1 else 0)) =
        Inr (delta + extra_len quotes c + sum_list (map (extra_len quotes) rest),
             erepl + (if substituted quotes c then 1 else 0) +
               length (filter (substituted quotes) rest))"
    by (rule Cons.IH)
  then show ?case
    using measure_pass_step [of pre c "rest @ [0]" "length pre + length (c # rest)" quotes delta erepl]
    by (simp add: add.assoc)
qed

lemma find_next_hit:
  assumes "substituted quotes c" and "length pre < inp_end"
  shows "find_next (pre @ c # rest) inp_end quotes (length pre) delta_len =
           Inr (length pre, length (spec_char_ref quotes c))"
proof -
  have s: "c < 63 \<and> (quotes \<or> (c \<noteq> 34 \<and> c \<noteq> 39))"
    using assms(1) by (rule substituted_small)
  then have r: "table_read escaped_chars_delta_len c = Inr (extra_len quotes c)"
    and z: "extra_len quotes c \<noteq> 0"
    using delta_len_read_extra [of c quotes] assms(1) by blast+
  have t: "c < ESCAPED_CHARS_TABLE_SIZE \<and> (quotes \<or> (c \<noteq> 34 \<and> c \<noteq> 39))"
    using s by (simp add: ESCAPED_CHARS_TABLE_SIZE_def)
  have l: "Suc (extra_len quotes c) = length (spec_char_ref quotes c)"
    using z by (simp add: extra_len_def)
  show ?thesis
    apply (subst find_next.simps)
    apply (simp only: assms(2) if_True peek_def length_append list.size nth_append_length)
    apply (simp add: t r z l)
    done
qed

lemma find_next_miss:
  assumes "\<not> substituted quotes c" and "length pre < inp_end"
  shows "\<exists>d. find_next (pre @ c # rest) inp_end quotes (length pre) delta_len =
           find_next (pre @ c # rest) inp_end quotes (length pre + 1) d"
proof (cases "c < 63 \<and> (quotes \<or> (c \<noteq> 34 \<and> c \<noteq> 39))")
  case True
  then have r: "table_read escaped_chars_delta_len c = Inr (extra_len quotes c)"
    and z: "extra_len quotes c = 0"
    using delta_len_read_extra [of c quotes] assms(1) by blast+
  have t: "c < ESCAPED_CHARS_TABLE_SIZE \<and> (quotes \<or> (c \<noteq> 34 \<and> c \<noteq> 39))"
    using True by (simp add: ESCAPED_CHARS_TABLE_SIZE_def)
  have "find_next (pre @ c # rest) inp_end quotes (length pre) delta_len =
           find_next (pre @ c # rest) inp_end quotes (length pre + 1) 0"
    apply (subst find_next.simps)
    apply (simp only: assms(2) if_True peek_def length_append list.size nth_append_length)
    apply (simp add: t r z)
    done
  then show ?thesis ..
next
  case False
  have t: "\<not> (c < ESCAPED_CHARS_TABLE_SIZE \<and> (quotes \<or> (c \<noteq> 34 \<and> c \<noteq> 39)))"
    using False by (simp add: ESCAPED_CHARS_TABLE_SIZE_def)
  have "find_next (pre @ c # rest) inp_end quotes (length pre) delta_len =
           find_next (pre @ c # rest) inp_end quotes (length pre + 1) delta_len"
    apply (subst find_next.simps)
    apply (simp only: assms(2) if_True peek_def length_append list.size nth_append_length)
    apply (simp add: t)
    done
  then show ?thesis ..
qed

lemma find_next_run:
  assumes "\<forall>x\<in>set run. \<not> substituted quotes x" and "substituted quotes c"
    and "length pre + length run < inp_end"
  shows "find_next (pre @ run @ c # rest) inp_end quotes (length pre) delta_len =
           Inr (length pre + length run, length (spec_char_ref quotes c))"
  using assms
proof (induction run arbitrary: pre delta_len)
  case Nil
  then show ?case using find_next_hit [of quotes c pre inp_end rest delta_len] by simp
next
  case (Cons x run)
  from Cons.prems obtain d where
    "find_next (pre @ x # run @ c # rest) inp_end quotes (length pre) delta_len =
     find_next (pre @ x # run @ c # rest) inp_end quotes (length pre + 1) d"
    using find_next_miss [of quotes x pre inp_end "run @ c # rest" delta_len] by auto
  moreover have "find_next ((pre @ [x]) @ run @ c # rest) inp_end quotes (length (pre @ [x])) d =
           Inr (length (pre @ [x]) + length run, length (spec_char_ref quotes c))"
    using Cons.prems by (intro Cons.IH) auto
  ultimately show ?case by simp
qed


lemma copy_into_fresh:
  assumes "s + len \<le> length src" and "len \<le> k"
  shows "Py_UNICODE_COPY (map Some done @ replicate k None) (length done) src s len =
           Inr (map Some (done @ take len (drop s src)) @ replicate (k - len) None)"
  using assms by (simp add: Py_UNICODE_COPY_def)

lemma place_one_run:
  assumes run: "\<forall>x\<in>set run. \<not> substituted quotes x" and c: "substituted quotes c"
    and e: "length pre + length run < inp_end"
    and k: "length run + length (spec_char_ref quotes c) \<le> k"
  shows "place_one (pre @ run @ c # rest) inp_end quotes (length pre) (length done) delta_len
           (map Some done @ replicate k None) =
         Inr (length pre + length run + 1,
              length done + length run + length (spec_char_ref quotes c),
              length (spec_char_ref quotes c),
              map Some (done @ run @ spec_char_ref quotes c) @
                replicate (k - length run - length (spec_char_ref quotes c)) None)"
proof -
  let ?buf = "pre @ run @ c # rest"
  let ?r = "spec_char_ref quotes c"
  have f: "find_next ?buf inp_end quotes (length pre) delta_len =
             Inr (length pre + length run, length ?r)"
    using run c e by (rule find_next_run)
  have c1: "(if length pre + length run > length pre
             then (case Py_UNICODE_COPY (map Some done @ replicate k None) (length done) ?buf
                          (length pre) (length pre + length run - length pre) of
                     Inl f \<Rightarrow> Inl f
                   | Inr out1 \<Rightarrow> Inr (out1, length done + (length pre + length run - length pre)))
             else Inr (map Some done @ replicate k None, length done)) =
            Inr (map Some (done @ run) @ replicate (k - length run) None,
                 length (done @ run))"
  proof (cases "run = []")
    case True
    then show ?thesis by simp
  next
    case False
    have "Py_UNICODE_COPY (map Some done @ replicate k None) (length done) ?buf
            (length pre) (length run) =
          Inr (map Some (done @ take (length run) (drop (length pre) ?buf)) @
               replicate (k - length run) None)"
      using k by (intro copy_into_fresh) auto
    with False show ?thesis by simp
  qed
  have p: "peek ?buf (length pre + length run) = Inr c"
    by (simp add: peek_def nth_append)
  have t: "table_read escaped_chars_repl c = Inr (Some (?r @ [0]))"
    using c by (rule repl_read)
  have c2: "Py_UNICODE_COPY (map Some (done @ run) @ replicate (k - length run) None)
              (length (done @ run)) (?r @ [0]) 0 (length ?r) =
            Inr (map Some ((done @ run) @ take (length ?r) (drop 0 (?r @ [0]))) @
                 replicate (k - length run - length ?r) None)"
    using k by (intro copy_into_fresh) auto
  show ?thesis
    unfolding place_one_def f
    apply (simp only: prod.case sum.case c1 p t option.case c2)
    apply simp
    done
qed


lemma spec_escape_scalar_append:
  "spec_escape_scalar quotes (a @ b) = spec_escape_scalar quotes a @ spec_escape_scalar quotes b"
  by (simp add: spec_escape_scalar_def)

lemma spec_escape_scalar_Cons:
  "spec_escape_scalar quotes (c # t) = spec_char_ref quotes c @ spec_escape_scalar quotes t"
  by (simp add: spec_escape_scalar_def)

lemma spec_escape_scalar_plain:
  "\<forall>x\<in>set t. \<not> substituted quotes x \<Longrightarrow> spec_escape_scalar quotes t = t"
  by (induction t) (simp_all add: spec_escape_scalar_def not_substituted_ref)

lemma place_loop_run:
  assumes "length (filter (substituted quotes) rest) = erepl"
    and "length (spec_escape_scalar quotes rest) \<le> k"
  shows "\<exists>rest1 tail. rest = rest1 @ tail \<and> (\<forall>x\<in>set tail. \<not> substituted quotes x) \<and>
           place_loop (pre @ rest @ [0]) (length pre + length rest) quotes erepl (length pre)
             (length done) delta_len (map Some done @ replicate k None) =
           Inr (length pre + length rest1,
                length done + length (spec_escape_scalar quotes rest1),
                map Some (done @ spec_escape_scalar quotes rest1) @
                  replicate (k - length (spec_escape_scalar quotes rest1)) None)"
  using assms
proof (induction erepl arbitrary: pre rest "done" k delta_len)
  case 0
  then have "\<forall>x\<in>set rest. \<not> substituted quotes x"
    by (simp add: filter_empty_conv)
  then have "rest = [] @ rest \<and> (\<forall>x\<in>set rest. \<not> substituted quotes x) \<and>
           place_loop (pre @ rest @ [0]) (length pre + length rest) quotes 0 (length pre)
             (length done) delta_len (map Some done @ replicate k None) =
           Inr (length pre + length ([]::nat list),
                length done + length (spec_escape_scalar quotes []),
                map Some (done @ spec_escape_scalar quotes []) @
                  replicate (k - length (spec_escape_scalar quotes [])) None)"
    by (simp add: spec_escape_scalar_def)
  then show ?case by blast
next
  case (Suc erepl)
  from Suc.prems(1) have "filter (substituted quotes) rest \<noteq> []"
    by auto
  then have "\<exists>x\<in>set rest. substituted quotes x"
    by (simp add: filter_empty_conv)
  then obtain run c rest' where
    rest: "rest = run @ c # rest'" and c: "substituted quotes c"
    and run: "\<forall>x\<in>set run. \<not> substituted quotes x"
    using split_list_first_prop [of rest "substituted quotes"] by blast
  let ?r = "spec_char_ref quotes c"
  have esc: "spec_escape_scalar quotes rest = run @ ?r @ spec_escape_scalar quotes rest'"
    using run by (simp add: rest spec_escape_scalar_append spec_escape_scalar_Cons
        spec_escape_scalar_plain)
  have n: "length (filter (substituted quotes) rest') = erepl"
    using Suc.prems(1) run c by (simp add: rest)
  have k1: "length run + length ?r \<le> k"
    using Suc.prems(2) by (simp add: esc)
  have k2: "length (spec_escape_scalar quotes rest') \<le> k - length run - length ?r"
    using Suc.prems(2) by (simp add: esc)
  have one: "place_one (pre @ run @ c # rest' @ [0]) (length pre + length rest) quotes
               (length pre) (length done) delta_len (map Some done @ replicate k None) =
             Inr (length pre + length run + 1, length done + length run + length ?r, length ?r,
                  map Some (done @ run @ ?r) @ replicate (k - length run - length ?r) None)"
    using run c _ k1 by (rule place_one_run) (simp add: rest)
  from Suc.IH [OF n k2, of "pre @ run @ [c]" "done @ run @ ?r" "length ?r"]
  obtain rest1 tail where
    t: "rest' = rest1 @ tail" "\<forall>x\<in>set tail. \<not> substituted quotes x"
    and l: "place_loop ((pre @ run @ [c]) @ rest' @ [0]) (length (pre @ run @ [c]) + length rest')
              quotes erepl (length (pre @ run @ [c])) (length (done @ run @ ?r)) (length ?r)
              (map Some (done @ run @ ?r) @ replicate (k - length run - length ?r) None) =
            Inr (length (pre @ run @ [c]) + length rest1,
                 length (done @ run @ ?r) + length (spec_escape_scalar quotes rest1),
                 map Some ((done @ run @ ?r) @ spec_escape_scalar quotes rest1) @
                   replicate (k - length run - length ?r -
                     length (spec_escape_scalar quotes rest1)) None)"
    by blast
  have esc1: "spec_escape_scalar quotes (run @ c # rest1) =
                run @ ?r @ spec_escape_scalar quotes rest1"
    using run by (simp add: spec_escape_scalar_append spec_escape_scalar_Cons
        spec_escape_scalar_plain)
  have "rest = (run @ c # rest1) @ tail"
    by (simp add: rest t(1))
  moreover have "place_loop (pre @ rest @ [0]) (length pre + length rest) quotes (Suc erepl)
             (length pre) (length done) delta_len (map Some done @ replicate k None) =
           Inr (length pre + length (run @ c # rest1),
                length done + length (spec_escape_scalar quotes (run @ c # rest1)),
                map Some (done @ spec_escape_scalar quotes (run @ c # rest1)) @
                  replicate (k - length (spec_escape_scalar quotes (run @ c # rest1))) None)"
    using one l by (simp add: rest esc1 add.assoc)
  ultimately show ?case using t(2) by blast
qed


lemma fill_pass_correct:
  "fill_pass (t @ [0]) (length t) quotes (length (filter (substituted quotes) t))
     (length (spec_escape_scalar quotes t)) = Inr (spec_escape_scalar quotes t)"
proof -
  let ?k = "length (spec_escape_scalar quotes t)"
  from place_loop_run [of quotes t "length (filter (substituted quotes) t)" ?k "[]" "[]" 0]
  obtain rest1 tail where
    t: "t = rest1 @ tail" and tail: "\<forall>x\<in>set tail. \<not> substituted quotes x"
    and l: "place_loop (t @ [0]) (length t) quotes (length (filter (substituted quotes) t)) 0 0 0
              (replicate ?k None) =
            Inr (length rest1, length (spec_escape_scalar quotes rest1),
                 map Some (spec_escape_scalar quotes rest1) @
                   replicate (?k - length (spec_escape_scalar quotes rest1)) None)"
    by auto
  let ?d = "spec_escape_scalar quotes rest1"
  have esc: "spec_escape_scalar quotes t = ?d @ tail"
    using tail by (simp add: t spec_escape_scalar_append spec_escape_scalar_plain)
  have k: "?k - length ?d = length tail"
    by (simp add: esc)
  have cp: "Py_UNICODE_COPY (map Some ?d @ replicate (length tail) None) (length ?d) (t @ [0])
              (length rest1) (length tail) =
            Inr (map Some (?d @ take (length tail) (drop (length rest1) (t @ [0]))) @
                 replicate (length tail - length tail) None)"
    by (intro copy_into_fresh) (simp_all add: t)
  have fin: "(if length rest1 < length t
              then Py_UNICODE_COPY (map Some ?d @ replicate (length tail) None) (length ?d)
                     (t @ [0]) (length rest1) (length t - length rest1)
              else Inr (map Some ?d @ replicate (length tail) None)) =
             Inr (map Some (spec_escape_scalar quotes t))"
  proof (cases "tail = []")
    case True
    then show ?thesis by (simp add: t)
  next
    case False
    then have "length rest1 < length t" and "length t - length rest1 = length tail"
      by (simp_all add: t)
    then show ?thesis using cp by (simp add: esc) (simp add: t)
  qed
  have all: "list_all (\<lambda>c. c \<noteq> None) (map Some (spec_escape_scalar quotes t))"
    by (simp add: list_all_iff)
  have the: "map the (map Some (spec_escape_scalar quotes t)) = spec_escape_scalar quotes t"
    by (simp add: comp_def)
  show ?thesis
    unfolding fill_pass_def l
    by (simp only: prod.case sum.case k fin all the if_True)
qed

lemma measure_pass_correct:
  "measure_pass (t @ [0]) (length t) quotes 0 0 0 =
     Inr (sum_list (map (extra_len quotes) t), length (filter (substituted quotes) t))"
  using measure_pass_run [of "[]" t quotes 0 0] by simp

lemma escape_unicode_eq:
  "escape_unicode w input quotes =
     (if \<forall>c\<in>set (unicode_data input). \<not> substituted quotes c
      then Inr (input, w\<lparr>escape_unicode_calls := escape_unicode_calls w + 1\<rparr>)
      else if length (spec_escape_scalar quotes (unicode_data input)) \<le> mem_avail w
      then Inr (unicode_object (next_addr w) (spec_escape_scalar quotes (unicode_data input)),
                w\<lparr>escape_unicode_calls := escape_unicode_calls w + 1,
                  mem_avail := mem_avail w - length (spec_escape_scalar quotes (unicode_data input)),
                  next_addr := next_addr w + 1\<rparr>)
      else Inl (Raised MemoryError))"
proof -
  let ?t = "unicode_data input"
  have z: "length (filter (substituted quotes) ?t) = 0 \<longleftrightarrow>
             (\<forall>c\<in>set ?t. \<not> substituted quotes c)"
    by (simp add: filter_empty_conv)
  have len: "length ?t + sum_list (map (extra_len quotes) ?t) =
               length (spec_escape_scalar quotes ?t)"
    by (simp add: length_spec_escape_scalar)
  show ?thesis
    unfolding escape_unicode_def Let_def measure_pass_correct
    by (simp only: prod.case sum.case z len fill_pass_correct)
      (simp add: PyUnicode_FromUnicode_def)
qed


lemma extra_len_True:
  "extra_len True =
     (\<lambda>c. if c = 34 \<or> c = 39 \<or> c = 38 then 4 else if c = 60 \<or> c = 62 then 3 else 0)"
  by (rule ext) (simp add: extra_len_def spec_char_ref_def)

lemma escape_unicode_cases:
  "(case escape_unicode w input quotes of
      Inr (out, w') \<Rightarrow>
        unicode_data out = spec_escape_scalar quotes (unicode_data input) \<and>
        escape_unicode_calls w' = escape_unicode_calls w + 1
    | Inl f \<Rightarrow>
        f = Raised MemoryError \<and>
        mem_avail w < length (spec_escape_scalar quotes (unicode_data input)))"
  by (simp add: escape_unicode_eq spec_escape_scalar_plain unicode_object_def)

section \<open>The dispatcher's paths\<close>

text \<open>
  Facts about the type chain and about lines 145-160, shared by the claims on
  \<open>escape\<close>: what wrapping the escaper's outcome gives, and that neither
  \<open>Markup\<close> nor lines 145-160 look at the outcome of the \<open>__html__\<close> lookup.
\<close>

lemma spec_char_ref_False:
  "spec_char_ref False =
     (\<lambda>c. if c = 38 then map of_char ''&amp;''
          else if c = 60 then map of_char ''&lt;''
          else if c = 62 then map of_char ''&gt;''
          else [c])"
  by (rule ext) (simp add: spec_char_ref_def)

lemma spec_char_ref_True:
  "spec_char_ref True =
     (\<lambda>c. if c = 34 then map of_char ''&#34;''
          else if c = 39 then map of_char ''&#39;''
          else if c = 38 then map of_char ''&amp;''
          else if c = 60 then map of_char ''&lt;''
          else if c = 62 then map of_char ''&gt;''
          else [c])"
  by (rule ext) (simp add: spec_char_ref_def)

lemma spec_char_ref_beyond_table:
  "ESCAPED_CHARS_TABLE_SIZE \<le> c \<Longrightarrow> spec_char_ref quotes c = [c]"
  by (simp add: ESCAPED_CHARS_TABLE_SIZE_def spec_char_ref_def)

lemma exact_numeric_not_markup:
  assumes "PyLong_CheckExact v \<or> PyFloat_CheckExact v \<or> PyBool_Check v \<or> is_Py_None v"
  shows "\<not> PyObject_TypeCheck v Markup_Type" and "ob_type v \<noteq> Unicode_Type"
  using assms
  by (auto simp add: PyLong_CheckExact_def PyFloat_CheckExact_def PyBool_Check_def
      is_Py_None_def PyObject_TypeCheck_def PyType_IsSubtype_def)

lemma subtype_Long_apart:
  "PyType_IsSubtype t Long_Type \<Longrightarrow>
   \<not> PyType_IsSubtype t Markup_Type \<and> \<not> PyType_IsSubtype t Unicode_Type \<and>
   t \<noteq> Float_Type \<and> t \<noteq> None_Type"
  by (induction t) (auto simp add: PyType_IsSubtype_def)

lemma subtype_Float_apart:
  "PyType_IsSubtype t Float_Type \<Longrightarrow>
   \<not> PyType_IsSubtype t Markup_Type \<and> \<not> PyType_IsSubtype t Unicode_Type \<and>
   t \<noteq> Long_Type \<and> t \<noteq> Bool_Type \<and> t \<noteq> None_Type"
  by (induction t) (auto simp add: PyType_IsSubtype_def)

lemma not_unicode_not_exact: "\<not> PyUnicode_Check v \<Longrightarrow> ob_type v \<noteq> Unicode_Type"
  by (auto simp add: PyUnicode_Check_def PyType_IsSubtype_def)

lemma Markup_call_exact:
  "ob_type s = Unicode_Type \<Longrightarrow>
   Markup_call w s =
     Inr (PyObject (next_addr w) Markup_Type (unicode_data s) (Inr (Str_New (unicode_data s)))
            (Inr Html_Self),
          w\<lparr>next_addr := next_addr w + 1\<rparr>)"
  by (simp add: Markup_call_def PyObject_Str_def)

lemma wrap_result_escape_unicode:
  "wrap_result (escape_unicode w s quotes) =
     (if \<forall>c\<in>set (unicode_data s). \<not> substituted quotes c
      then Markup_call (w\<lparr>escape_unicode_calls := escape_unicode_calls w + 1\<rparr>) s
      else if length (spec_escape_scalar quotes (unicode_data s)) \<le> mem_avail w
      then Inr (PyObject (next_addr w + 1) Markup_Type (spec_escape_scalar quotes (unicode_data s))
                  (Inr (Str_New (spec_escape_scalar quotes (unicode_data s)))) (Inr Html_Self),
                w\<lparr>escape_unicode_calls := escape_unicode_calls w + 1,
                  mem_avail := mem_avail w - length (spec_escape_scalar quotes (unicode_data s)),
                  next_addr := next_addr w + 2\<rparr>)
      else Inl (Fault Null_Pointer))"
  by (simp add: escape_unicode_eq wrap_result_def Markup_call_exact unicode_object_def)

lemma Markup_call_html_irrelevant:
  "Markup_call w (PyObject a ty d st h) = Markup_call w (PyObject a ty d st h')"
  by (simp add: Markup_call_def PyObject_Str_def split: sum.splits str_result.splits)

lemma escape_text_html_irrelevant:
  "escape_text w (PyObject a ty d st h) quotes = escape_text w (PyObject a ty d st h') quotes"
proof (cases "PyUnicode_Check (PyObject a ty d st h)")
  case True
  then have "PyUnicode_Check (PyObject a ty d st h')"
    by (simp add: PyUnicode_Check_def)
  with True show ?thesis
    using Markup_call_html_irrelevant [of _ a ty d st h h']
    by (simp add: escape_text_def wrap_result_escape_unicode)
next
  case False
  then have n: "\<not> PyUnicode_Check (PyObject a ty d st h')"
    by (simp add: PyUnicode_Check_def)
  have "ty \<noteq> Unicode_Type"
    using not_unicode_not_exact [OF False] by simp
  then have "PyObject_Str w (PyObject a ty d st h) = PyObject_Str w (PyObject a ty d st h')"
    by (simp add: PyObject_Str_def)
  with False n show ?thesis
    by (simp add: escape_text_def)
qed

text \<open>
  The three failures of a call, one lemma each: a failing \<open>str()\<close> and a failing
  \<open>__html__\<close> method reach the caller as the exception raised; a failing allocation
  in \<open>escape_unicode\<close> does not.
\<close>

lemma escape_str_failure_propagates:
  assumes "\<not> PyObject_TypeCheck text Markup_Type"
    and "\<not> (PyLong_CheckExact text \<or> PyFloat_CheckExact text \<or> PyBool_Check text \<or>
            is_Py_None text)"
    and "getattr_html text = Inl e" and "\<not> PyUnicode_Check text" and "tp_str text = Inl x"
  shows "escape w text quotes = Inl (Raised x)"
  using assms not_unicode_not_exact [of "text"]
  by (simp add: escape_def escape_text_def PyObject_Str_def)

lemma escape_html_failure_propagates:
  assumes "\<not> PyObject_TypeCheck text Markup_Type"
    and "\<not> (PyLong_CheckExact text \<or> PyFloat_CheckExact text \<or> PyBool_Check text \<or>
            is_Py_None text)"
    and "getattr_html text = Inr (Html_Call (Inl x))"
  shows "escape w text quotes = Inl (Raised x)"
  using assms by (simp add: escape_def PyObject_CallObject_def)

lemma escape_allocation_failure:
  assumes "\<not> PyObject_TypeCheck text Markup_Type"
    and "\<not> (PyLong_CheckExact text \<or> PyFloat_CheckExact text \<or> PyBool_Check text \<or>
            is_Py_None text)"
    and "getattr_html text = Inl e" and "PyUnicode_Check text"
    and "\<exists>c\<in>set (unicode_data text). substituted quotes c"
    and "mem_avail w < length (spec_escape_scalar quotes (unicode_data text))"
  shows "escape w text quotes = Inl (Fault Null_Pointer)"
  using assms by (auto simp add: escape_def escape_text_def wrap_result_escape_unicode)

section \<open>The claims\<close>

text \<open>
  C1. For every value \<open>v\<close> that is already safe-marked (its type is \<open>Markup\<close> or
  derives from it), \<open>escape\<close> returns \<open>v\<close> itself: the same object at the same
  address, with the process state as it was (nothing allocated, the scalar escaper not
  entered), whatever \<open>quotes\<close> is.
\<close>

theorem escape_markup_identity:
  "PyObject_TypeCheck v Markup_Type \<Longrightarrow> escape w v quotes = Inr (v, w)"
  by (simp add: escape_def)

theorem escape_markup_identity_witness:
  "PyObject_TypeCheck
     (PyObject 7 Markup_Type (map of_char ''<b>'') (Inr (Str_New (map of_char ''<b>''))) (Inr Html_Self))
     Markup_Type \<and>
   escape \<lparr>mem_avail = 0, next_addr = 8, escape_unicode_calls = 0\<rparr>
     (PyObject 7 Markup_Type (map of_char ''<b>'') (Inr (Str_New (map of_char ''<b>''))) (Inr Html_Self))
     True =
   Inr (PyObject 7 Markup_Type (map of_char ''<b>'') (Inr (Str_New (map of_char ''<b>''))) (Inr Html_Self),
        \<lparr>mem_avail = 0, next_addr = 8, escape_unicode_calls = 0\<rparr>)"
proof -
  have h: "PyObject_TypeCheck
     (PyObject 7 Markup_Type (map of_char ''<b>'') (Inr (Str_New (map of_char ''<b>''))) (Inr Html_Self))
     Markup_Type"
    by (simp add: PyObject_TypeCheck_def PyType_IsSubtype_def)
  show ?thesis
    using h escape_markup_identity [OF h, of "\<lparr>mem_avail = 0, next_addr = 8, escape_unicode_calls = 0\<rparr>" True]
    by simp
qed

text \<open>
  C2. For every string \<open>input\<close>, when \<open>escape_unicode\<close> with \<open>quotes\<close> true returns
  an object, the length of its text is the length of the input plus 4 for each
  \<open>"\<close>, \<open>'\<close>, \<open>&\<close> and 3 for each \<open><\<close>, \<open>>\<close> of the input, and nothing for
  any other unit. The only other outcome is \<open>MemoryError\<close>, and only when the allocator
  cannot provide that many units.
\<close>

theorem escape_unicode_delta_length:
  "(case escape_unicode w input True of
      Inr (out, w') \<Rightarrow>
        length (unicode_data out) =
          length (unicode_data input) +
          (\<Sum>c\<leftarrow>unicode_data input.
             if c = 34 \<or> c = 39 \<or> c = 38 then 4 else if c = 60 \<or> c = 62 then 3 else 0)
    | Inl f \<Rightarrow>
        f = Raised MemoryError \<and>
        mem_avail w <
          length (unicode_data input) +
          (\<Sum>c\<leftarrow>unicode_data input.
             if c = 34 \<or> c = 39 \<or> c = 38 then 4 else if c = 60 \<or> c = 62 then 3 else 0))"
proof -
  have "length (spec_escape_scalar True (unicode_data input)) =
          length (unicode_data input) +
          (\<Sum>c\<leftarrow>unicode_data input.
             if c = 34 \<or> c = 39 \<or> c = 38 then 4 else if c = 60 \<or> c = 62 then 3 else 0)"
    by (simp add: length_spec_escape_scalar extra_len_True)
  then show ?thesis
    using escape_unicode_cases [where w = w and input = input and quotes = True]
    by (auto split: sum.splits)
qed

theorem escape_unicode_delta_length_witness:
  "escape_unicode \<lparr>mem_avail = 20, next_addr = 1, escape_unicode_calls = 0\<rparr>
     (unicode_object 0 (map of_char ''a<b & c'')) True =
   Inr (unicode_object 1 (map of_char ''a&lt;b &amp; c''),
        \<lparr>mem_avail = 6, next_addr = 2, escape_unicode_calls = 1\<rparr>) \<and>
   length (map of_char ''a&lt;b &amp; c'' :: nat list) =
     length (map of_char ''a<b & c'' :: nat list) + (3 + 4)"
proof -
  have e: "escape_unicode \<lparr>mem_avail = 20, next_addr = 1, escape_unicode_calls = 0\<rparr>
     (unicode_object 0 (map of_char ''a<b & c'')) True =
   Inr (unicode_object 1 (map of_char ''a&lt;b &amp; c''),
        \<lparr>mem_avail = 6, next_addr = 2, escape_unicode_calls = 1\<rparr>)"
    by code_simp
  show ?thesis
    using escape_unicode_delta_length
      [where w = "\<lparr>mem_avail = 20, next_addr = 1, escape_unicode_calls = 0\<rparr>"
         and input = "unicode_object 0 (map of_char ''a<b & c'')"]
    unfolding e by (simp add: unicode_object_def)
qed

text \<open>
  C3. For every string, \<open>escape_unicode\<close> with \<open>quotes\<close> false copies every
  \<open>"\<close> and \<open>'\<close> through as ordinary text and replaces every \<open>&\<close>, \<open><\<close>,
  \<open>>\<close> by \<open>&amp;\<close>, \<open>&lt;\<close>, \<open>&gt;\<close>; with \<open>quotes\<close> true these three
  characters get the same replacements, and only the two quote characters are treated
  differently. In both cases the result is the concatenation of the per-character
  results. The only other outcome is \<open>MemoryError\<close>, and only when the allocator
  cannot provide the length of that concatenation.
\<close>

theorem escape_unicode_quote_toggle:
  "(case escape_unicode w input False of
      Inr (out, w') \<Rightarrow>
        unicode_data out =
          concat (map (\<lambda>c. if c = 38 then map of_char ''&amp;''
                           else if c = 60 then map of_char ''&lt;''
                           else if c = 62 then map of_char ''&gt;''
                           else [c]) (unicode_data input))
    | Inl f \<Rightarrow>
        f = Raised MemoryError \<and>
        mem_avail w <
          length (concat (map (\<lambda>c. if c = 38 then map of_char ''&amp;''
                                   else if c = 60 then map of_char ''&lt;''
                                   else if c = 62 then map of_char ''&gt;''
                                   else [c]) (unicode_data input)))) \<and>
   (case escape_unicode w input True of
      Inr (out, w') \<Rightarrow>
        unicode_data out =
          concat (map (\<lambda>c. if c = 34 then map of_char ''&#34;''
                           else if c = 39 then map of_char ''&#39;''
                           else if c = 38 then map of_char ''&amp;''
                           else if c = 60 then map of_char ''&lt;''
                           else if c = 62 then map of_char ''&gt;''
                           else [c]) (unicode_data input))
    | Inl f \<Rightarrow>
        f = Raised MemoryError \<and>
        mem_avail w <
          length (concat (map (\<lambda>c. if c = 34 then map of_char ''&#34;''
                                   else if c = 39 then map of_char ''&#39;''
                                   else if c = 38 then map of_char ''&amp;''
                                   else if c = 60 then map of_char ''&lt;''
                                   else if c = 62 then map of_char ''&gt;''
                                   else [c]) (unicode_data input))))"
  using escape_unicode_cases [where w = w and input = input and quotes = False]
    escape_unicode_cases [where w = w and input = input and quotes = True]
  unfolding spec_escape_scalar_def spec_char_ref_False spec_char_ref_True
  by (auto split: sum.splits)

theorem escape_unicode_quote_toggle_witness:
  \<open>escape_unicode \<lparr>mem_avail = 40, next_addr = 1, escape_unicode_calls = 0\<rparr>
     (unicode_object 0 (map of_char ''<b>"hi"</b>'')) False =
   Inr (unicode_object 1 (map of_char ''&lt;b&gt;"hi"&lt;/b&gt;''),
        \<lparr>mem_avail = 17, next_addr = 2, escape_unicode_calls = 1\<rparr>) \<and>
   escape_unicode \<lparr>mem_avail = 40, next_addr = 1, escape_unicode_calls = 0\<rparr>
     (unicode_object 0 (map of_char ''<b>"hi"</b>'')) True =
   Inr (unicode_object 1 (map of_char ''&lt;b&gt;&#34;hi&#34;&lt;/b&gt;''),
        \<lparr>mem_avail = 9, next_addr = 2, escape_unicode_calls = 1\<rparr>)\<close>
  using escape_unicode_quote_toggle
    [where w = "\<lparr>mem_avail = 40, next_addr = 1, escape_unicode_calls = 0\<rparr>"
       and input = \<open>unicode_object 0 (map of_char ''<b>"hi"</b>'')\<close>]
  by (simp add: escape_unicode_eq substituted_def spec_escape_scalar_def spec_char_ref_def
      unicode_object_def)

text \<open>
  C4. For every string with none of \<open>&\<close>, \<open><\<close>, \<open>>\<close> and, when \<open>quotes\<close> is
  true, none of \<open>"\<close>, \<open>'\<close>, the first pass counts no substitution and
  \<open>escape_unicode\<close> returns the input object itself: same address, nothing allocated
  (\<open>mem_avail\<close> and \<open>next_addr\<close> as before), whatever memory is available. The empty
  string is one such input.
\<close>

theorem escape_unicode_fast_path:
  assumes "\<forall>c\<in>set (unicode_data input).
             c \<noteq> 38 \<and> c \<noteq> 60 \<and> c \<noteq> 62 \<and> (quotes \<longrightarrow> c \<noteq> 34 \<and> c \<noteq> 39)"
  shows "measure_pass (unicode_data input @ [0]) (length (unicode_data input)) quotes 0 0 0 =
           Inr (0, 0) \<and>
         escape_unicode w input quotes =
           Inr (input, w\<lparr>escape_unicode_calls := escape_unicode_calls w + 1\<rparr>)"
proof -
  have p: "\<forall>c\<in>set (unicode_data input). \<not> substituted quotes c"
    using assms by (auto simp add: substituted_def)
  then have "filter (substituted quotes) (unicode_data input) = []"
    by (simp add: filter_empty_conv)
  moreover have "sum_list (map (extra_len quotes) (unicode_data input)) = 0"
    using p by (simp add: extra_len_not_substituted)
  ultimately have "measure_pass (unicode_data input @ [0]) (length (unicode_data input)) quotes
                     0 0 0 = Inr (0, 0)"
    by (simp add: measure_pass_correct)
  then show ?thesis using p by (simp add: escape_unicode_eq)
qed

theorem escape_unicode_fast_path_witness:
  \<open>escape_unicode \<lparr>mem_avail = 0, next_addr = 1, escape_unicode_calls = 0\<rparr>
     (unicode_object 0 (map of_char ''plain text'')) True =
   Inr (unicode_object 0 (map of_char ''plain text''),
        \<lparr>mem_avail = 0, next_addr = 1, escape_unicode_calls = 1\<rparr>) \<and>
   escape_unicode \<lparr>mem_avail = 0, next_addr = 1, escape_unicode_calls = 0\<rparr>
     (unicode_object 0 []) True =
   Inr (unicode_object 0 [], \<lparr>mem_avail = 0, next_addr = 1, escape_unicode_calls = 1\<rparr>) \<and>
   escape_unicode \<lparr>mem_avail = 0, next_addr = 1, escape_unicode_calls = 0\<rparr>
     (unicode_object 0 (map of_char ''say "hi"'')) False =
   Inr (unicode_object 0 (map of_char ''say "hi"''),
        \<lparr>mem_avail = 0, next_addr = 1, escape_unicode_calls = 1\<rparr>)\<close>
  using
    escape_unicode_fast_path
      [where input = "unicode_object 0 (map of_char ''plain text'')" and quotes = True
         and w = "\<lparr>mem_avail = 0, next_addr = 1, escape_unicode_calls = 0\<rparr>"]
    escape_unicode_fast_path
      [where input = "unicode_object 0 []" and quotes = True
         and w = "\<lparr>mem_avail = 0, next_addr = 1, escape_unicode_calls = 0\<rparr>"]
    escape_unicode_fast_path
      [where input = \<open>unicode_object 0 (map of_char ''say "hi"'')\<close> and quotes = False
         and w = "\<lparr>mem_avail = 0, next_addr = 1, escape_unicode_calls = 0\<rparr>"]
  by (simp add: unicode_object_def)

text \<open>
  C5. On the input \<open><b>"hi" & 'bye'</b>\<close> with \<open>quotes\<close> true,
  \<open>escape_unicode\<close> returns a new string holding exactly
  \<open>&lt;b&gt;&#34;hi&#34; &amp; &#39;bye&#39;&lt;/b&gt;\<close>, unless the allocator cannot
  provide its 51 units.
\<close>

theorem escape_unicode_scenario:
  \<open>(case escape_unicode w (unicode_object a (map of_char ''<b>"hi" & 'bye'</b>'')) True of
      Inr (out, w') \<Rightarrow>
        out = unicode_object (next_addr w)
                (map of_char ''&lt;b&gt;&#34;hi&#34; &amp; &#39;bye&#39;&lt;/b&gt;'')
    | Inl f \<Rightarrow> f = Raised MemoryError \<and> mem_avail w < 51)\<close>
  by (simp add: escape_unicode_eq substituted_def spec_escape_scalar_def spec_char_ref_def
      unicode_object_def)

theorem escape_unicode_scenario_witness:
  \<open>escape_unicode \<lparr>mem_avail = 51, next_addr = 1, escape_unicode_calls = 0\<rparr>
     (unicode_object 0 (map of_char ''<b>"hi" & 'bye'</b>'')) True =
   Inr (unicode_object 1 (map of_char ''&lt;b&gt;&#34;hi&#34; &amp; &#39;bye&#39;&lt;/b&gt;''),
        \<lparr>mem_avail = 0, next_addr = 2, escape_unicode_calls = 1\<rparr>)\<close>
proof -
  have e: \<open>escape_unicode \<lparr>mem_avail = 51, next_addr = 1, escape_unicode_calls = 0\<rparr>
     (unicode_object 0 (map of_char ''<b>"hi" & 'bye'</b>'')) True =
   Inr (unicode_object 1 (map of_char ''&lt;b&gt;&#34;hi&#34; &amp; &#39;bye&#39;&lt;/b&gt;''),
        \<lparr>mem_avail = 0, next_addr = 2, escape_unicode_calls = 1\<rparr>)\<close>
    by code_simp
  show ?thesis
    using escape_unicode_scenario
      [where w = "\<lparr>mem_avail = 51, next_addr = 1, escape_unicode_calls = 0\<rparr>" and a = 0] e
    by simp
qed

text \<open>
  C6. For every value whose type is exactly \<open>int\<close>, exactly \<open>float\<close>, \<open>bool\<close>, or
  that is \<open>None\<close>, \<open>escape\<close> returns what calling \<open>Markup\<close> on the value returns: a
  new safe-marked object around the value's text as \<open>str()\<close> gives it (the exception
  of \<open>str()\<close> if it raises). The scalar escaper is not entered: the counter of its
  calls is what it was.
\<close>

theorem escape_numeric_direct_wrap:
  assumes "PyLong_CheckExact v \<or> PyFloat_CheckExact v \<or> PyBool_Check v \<or> is_Py_None v"
  shows "escape w v quotes =
           (case tp_str v of
              Inl e \<Rightarrow> Inl (Raised e)
            | Inr (Str_New t) \<Rightarrow>
                Inr (PyObject (next_addr w) Markup_Type t (Inr (Str_New t)) (Inr Html_Self),
                     w\<lparr>next_addr := next_addr w + 1\<rparr>)
            | Inr (Str_Existing s) \<Rightarrow>
                (if PyUnicode_Check s
                 then Inr (PyObject (next_addr w) Markup_Type (unicode_data s)
                             (Inr (Str_New (unicode_data s))) (Inr Html_Self),
                           w\<lparr>next_addr := next_addr w + 1\<rparr>)
                 else Inl (Raised TypeError))) \<and>
         (\<forall>rv w'. escape w v quotes = Inr (rv, w') \<longrightarrow>
            escape_unicode_calls w' = escape_unicode_calls w)"
proof -
  have "escape w v quotes = Markup_call w v"
    using assms exact_numeric_not_markup(1) [OF assms] by (simp add: escape_def)
  then show ?thesis
    using exact_numeric_not_markup(2) [OF assms]
    by (auto simp add: Markup_call_def PyObject_Str_def unicode_object_def
        split: sum.splits str_result.splits)
qed

theorem escape_numeric_direct_wrap_witness:
  "escape \<lparr>mem_avail = 0, next_addr = 5, escape_unicode_calls = 0\<rparr>
     (PyObject 1 Long_Type [] (Inr (Str_New (map of_char ''42''))) (Inl AttributeError)) True =
   Inr (PyObject 5 Markup_Type (map of_char ''42'') (Inr (Str_New (map of_char ''42'')))
          (Inr Html_Self),
        \<lparr>mem_avail = 0, next_addr = 6, escape_unicode_calls = 0\<rparr>) \<and>
   escape \<lparr>mem_avail = 0, next_addr = 5, escape_unicode_calls = 0\<rparr>
     (PyObject 2 Float_Type [] (Inr (Str_New (map of_char ''3.14''))) (Inl AttributeError))
     True =
   Inr (PyObject 5 Markup_Type (map of_char ''3.14'') (Inr (Str_New (map of_char ''3.14'')))
          (Inr Html_Self),
        \<lparr>mem_avail = 0, next_addr = 6, escape_unicode_calls = 0\<rparr>) \<and>
   escape \<lparr>mem_avail = 0, next_addr = 5, escape_unicode_calls = 0\<rparr>
     (PyObject 3 Bool_Type [] (Inr (Str_New (map of_char ''True''))) (Inl AttributeError))
     True =
   Inr (PyObject 5 Markup_Type (map of_char ''True'') (Inr (Str_New (map of_char ''True'')))
          (Inr Html_Self),
        \<lparr>mem_avail = 0, next_addr = 6, escape_unicode_calls = 0\<rparr>) \<and>
   escape \<lparr>mem_avail = 0, next_addr = 5, escape_unicode_calls = 0\<rparr>
     (PyObject 4 None_Type [] (Inr (Str_New (map of_char ''None''))) (Inl AttributeError))
     True =
   Inr (PyObject 5 Markup_Type (map of_char ''None'') (Inr (Str_New (map of_char ''None'')))
          (Inr Html_Self),
        \<lparr>mem_avail = 0, next_addr = 6, escape_unicode_calls = 0\<rparr>)"
  using
    escape_numeric_direct_wrap
      [where v = "PyObject 1 Long_Type [] (Inr (Str_New (map of_char ''42'')))
                    (Inl AttributeError)"
         and w = "\<lparr>mem_avail = 0, next_addr = 5, escape_unicode_calls = 0\<rparr>"
         and quotes = True]
    escape_numeric_direct_wrap
      [where v = "PyObject 2 Float_Type [] (Inr (Str_New (map of_char ''3.14'')))
                    (Inl AttributeError)"
         and w = "\<lparr>mem_avail = 0, next_addr = 5, escape_unicode_calls = 0\<rparr>"
         and quotes = True]
    escape_numeric_direct_wrap
      [where v = "PyObject 3 Bool_Type [] (Inr (Str_New (map of_char ''True'')))
                    (Inl AttributeError)"
         and w = "\<lparr>mem_avail = 0, next_addr = 5, escape_unicode_calls = 0\<rparr>"
         and quotes = True]
    escape_numeric_direct_wrap
      [where v = "PyObject 4 None_Type [] (Inr (Str_New (map of_char ''None'')))
                    (Inl AttributeError)"
         and w = "\<lparr>mem_avail = 0, next_addr = 5, escape_unicode_calls = 0\<rparr>"
         and quotes = True]
  by (simp add: PyLong_CheckExact_def PyFloat_CheckExact_def PyBool_Check_def is_Py_None_def)

text \<open>
  C7. For every string, \<open>escape_unicode\<close> never reads a table outside its 63
  entries (nor leaves defined behaviour in any other way: its only failure is
  \<open>MemoryError\<close>, when the allocator cannot provide the length of the result), and
  every unit at or above 63 appears in the result as itself.
\<close>

theorem escape_unicode_table_bound:
  "escape_unicode w input quotes \<noteq> Inl (Fault Table_Index_Out_Of_Range) \<and>
   (case escape_unicode w input quotes of
      Inr (out, w') \<Rightarrow>
        unicode_data out =
          concat (map (\<lambda>c. if ESCAPED_CHARS_TABLE_SIZE \<le> c then [c]
                           else spec_char_ref quotes c) (unicode_data input))
    | Inl f \<Rightarrow>
        f = Raised MemoryError \<and>
        mem_avail w <
          length (concat (map (\<lambda>c. if ESCAPED_CHARS_TABLE_SIZE \<le> c then [c]
                                   else spec_char_ref quotes c) (unicode_data input))))"
proof -
  have "(\<lambda>c. if ESCAPED_CHARS_TABLE_SIZE \<le> c then [c] else spec_char_ref quotes c) =
          spec_char_ref quotes"
    by (rule ext) (simp add: spec_char_ref_beyond_table)
  then show ?thesis
    using escape_unicode_cases [where w = w and input = input and quotes = quotes]
    by (auto simp add: spec_escape_scalar_def split: sum.splits)
qed

theorem escape_unicode_table_bound_witness:
  "escape_unicode \<lparr>mem_avail = 10, next_addr = 1, escape_unicode_calls = 0\<rparr>
     (unicode_object 0 [63, 60, 64, 233, 8364, 128512]) True =
   Inr (unicode_object 1 ([63] @ map of_char ''&lt;'' @ [64, 233, 8364, 128512]),
        \<lparr>mem_avail = 1, next_addr = 2, escape_unicode_calls = 1\<rparr>)"
  using escape_unicode_table_bound
      [where w = "\<lparr>mem_avail = 10, next_addr = 1, escape_unicode_calls = 0\<rparr>"
         and input = "unicode_object 0 [63, 60, 64, 233, 8364, 128512]" and quotes = True]
  by (simp add: escape_unicode_eq substituted_def spec_escape_scalar_def spec_char_ref_def
      unicode_object_def ESCAPED_CHARS_TABLE_SIZE_def)

text \<open>
  C8. The claim: a failed allocation of the output buffer makes the call fail with that
  exception. The code: \<open>escape_unicode\<close> returns \<open>NULL\<close> with \<open>MemoryError\<close> set,
  and \<open>escape\<close>, which does not test that result, passes it to \<open>Py_DECREF\<close>: a
  \<open>NULL\<close> dereference instead of the exception. Evaluated on the string \<open><\<close> with
  no memory left.
\<close>

theorem escape_allocation_failure_null_dereference:
  "escape_unicode \<lparr>mem_avail = 0, next_addr = 1, escape_unicode_calls = 0\<rparr>
     (unicode_object 0 (map of_char ''<'')) True = Inl (Raised MemoryError) \<and>
   escape \<lparr>mem_avail = 0, next_addr = 1, escape_unicode_calls = 0\<rparr>
     (unicode_object 0 (map of_char ''<'')) True = Inl (Fault Null_Pointer)"
  by code_simp

text \<open>
  C9. For every value that is neither safe-marked nor of a short-circuited type, if the
  lookup of \<open>__html__\<close> fails, with \<open>AttributeError\<close> or with any other exception,
  \<open>escape\<close> does exactly what lines 145-160 do on that value, and the exception of the
  lookup is dropped: the outcome of the call is the same whichever exception the lookup
  raised, so the same as when the attribute is simply absent.
\<close>

theorem escape_html_probe_failure_suppressed:
  assumes "\<not> PyObject_TypeCheck text Markup_Type"
    and "\<not> (PyLong_CheckExact text \<or> PyFloat_CheckExact text \<or> PyBool_Check text \<or>
            is_Py_None text)"
    and "getattr_html text = Inl e"
  shows "escape w text quotes = escape_text w text quotes \<and>
         (\<forall>e'. escape w
                 (PyObject (ob_addr text) (ob_type text) (unicode_data text) (tp_str text)
                    (Inl e')) quotes =
               escape w text quotes)"
proof -
  obtain a ty d st h where t: "text = PyObject a ty d st h"
    by (cases "text")
  have h: "h = Inl e"
    using assms(3) by (simp add: t)
  have 1: "escape w text quotes = escape_text w text quotes"
    using assms by (simp add: escape_def)
  have 2: "escape w (PyObject a ty d st (Inl e')) quotes =
             escape_text w (PyObject a ty d st (Inl e')) quotes" for e'
    using assms(1,2)
    by (simp add: t escape_def PyObject_TypeCheck_def PyLong_CheckExact_def
        PyFloat_CheckExact_def PyBool_Check_def is_Py_None_def)
  show ?thesis
    using 1 2 escape_text_html_irrelevant [of w a ty d st _ quotes h]
    by (simp add: t)
qed

theorem escape_html_probe_failure_suppressed_witness:
  "escape \<lparr>mem_avail = 10, next_addr = 1, escape_unicode_calls = 0\<rparr>
     (PyObject 0 Object_Type [] (Inr (Str_New (map of_char ''a<b'')))
        (Inl (Exception ''boom''))) True =
   Inr (PyObject 3 Markup_Type (map of_char ''a&lt;b'') (Inr (Str_New (map of_char ''a&lt;b'')))
          (Inr Html_Self),
        \<lparr>mem_avail = 4, next_addr = 4, escape_unicode_calls = 1\<rparr>) \<and>
   escape \<lparr>mem_avail = 10, next_addr = 1, escape_unicode_calls = 0\<rparr>
     (PyObject 0 Object_Type [] (Inr (Str_New (map of_char ''a<b''))) (Inl AttributeError))
     True =
   escape \<lparr>mem_avail = 10, next_addr = 1, escape_unicode_calls = 0\<rparr>
     (PyObject 0 Object_Type [] (Inr (Str_New (map of_char ''a<b'')))
        (Inl (Exception ''boom''))) True"
proof -
  let ?v = "PyObject 0 Object_Type [] (Inr (Str_New (map of_char ''a<b'')))
              (Inl (Exception ''boom''))"
  let ?w = "\<lparr>mem_avail = 10, next_addr = 1, escape_unicode_calls = 0\<rparr>"
  have a: "\<not> PyObject_TypeCheck ?v Markup_Type"
    by (simp add: PyObject_TypeCheck_def PyType_IsSubtype_def)
  have b: "\<not> (PyLong_CheckExact ?v \<or> PyFloat_CheckExact ?v \<or> PyBool_Check ?v \<or> is_Py_None ?v)"
    by (simp add: PyLong_CheckExact_def PyFloat_CheckExact_def PyBool_Check_def is_Py_None_def)
  have c: "getattr_html ?v = Inl (Exception ''boom'')"
    by simp
  have t: "escape_text ?w ?v True =
   Inr (PyObject 3 Markup_Type (map of_char ''a&lt;b'') (Inr (Str_New (map of_char ''a&lt;b'')))
          (Inr Html_Self),
        \<lparr>mem_avail = 4, next_addr = 4, escape_unicode_calls = 1\<rparr>)"
    by code_simp
  from escape_html_probe_failure_suppressed [OF a b c, of ?w True]
  have "escape ?w ?v True = escape_text ?w ?v True"
    and "escape ?w
           (PyObject (ob_addr ?v) (ob_type ?v) (unicode_data ?v) (tp_str ?v) (Inl AttributeError))
           True = escape ?w ?v True"
    by blast+
  then show ?thesis
    unfolding t by simp
qed

text \<open>
  C10, as stated, fails on two inputs. An instance of a class derived from \<open>int\<close> that
  has an \<open>__html__\<close> method: \<open>escape\<close> returns what the method returns, not wrapped
  and not escaped. The value \<open>True\<close>, whose type \<open>bool\<close> is a strict subclass of
  \<open>int\<close>: \<open>escape\<close> wraps it directly. In both the scalar escaper is not entered.
\<close>

theorem escape_numeric_subclass_counterexample:
  "PyType_IsSubtype (Derived Long_Type) Long_Type \<and> Derived Long_Type \<noteq> Long_Type \<and>
   escape \<lparr>mem_avail = 100, next_addr = 10, escape_unicode_calls = 0\<rparr>
     (PyObject 1 (Derived Long_Type) [] (Inr (Str_New (map of_char ''7'')))
        (Inr (Html_Call (Inr (unicode_object 2 (map of_char ''<b>7</b>'')))))) True =
   Inr (unicode_object 2 (map of_char ''<b>7</b>''),
        \<lparr>mem_avail = 100, next_addr = 10, escape_unicode_calls = 0\<rparr>) \<and>
   PyType_IsSubtype Bool_Type Long_Type \<and> Bool_Type \<noteq> Long_Type \<and>
   escape \<lparr>mem_avail = 100, next_addr = 10, escape_unicode_calls = 0\<rparr>
     (PyObject 3 Bool_Type [] (Inr (Str_New (map of_char ''True''))) (Inl AttributeError))
     True =
   Inr (PyObject 10 Markup_Type (map of_char ''True'') (Inr (Str_New (map of_char ''True'')))
          (Inr Html_Self),
        \<lparr>mem_avail = 100, next_addr = 11, escape_unicode_calls = 0\<rparr>)"
  by (simp add: PyType_IsSubtype_def escape_def PyObject_TypeCheck_def PyLong_CheckExact_def
      PyFloat_CheckExact_def PyBool_Check_def is_Py_None_def PyObject_CallObject_def
      Markup_call_def PyObject_Str_def unicode_object_def)

text \<open>
  C10, amended. For every value whose type is a strict subclass of \<open>int\<close> other than
  \<open>bool\<close>, or a strict subclass of \<open>float\<close>: if the lookup of \<open>__html__\<close>
  succeeds, \<open>escape\<close> returns what calling the method returns. If the lookup fails,
  \<open>escape\<close> converts the value with \<open>PyObject_Str\<close> (a failure of the conversion
  reaches the caller) and enters the scalar escaper once on the string \<open>s\<close> so
  obtained. When \<open>s\<close> has a character to substitute and the allocation succeeds,
  the result is a safe-marked object holding the escaped text of \<open>s\<close>. When
  \<open>s\<close> has none, the result is what \<open>Markup\<close> returns on \<open>s\<close> itself: for an
  exact string, a safe-marked object holding its text.
\<close>

theorem escape_numeric_subclass_text_path:
  assumes "(PyType_IsSubtype (ob_type v) Long_Type \<and> ob_type v \<noteq> Long_Type \<and>
            ob_type v \<noteq> Bool_Type) \<or>
           (PyType_IsSubtype (ob_type v) Float_Type \<and> ob_type v \<noteq> Float_Type)"
  shows "(case getattr_html v of
            Inr html \<Rightarrow> escape w v quotes = PyObject_CallObject w v html
          | Inl e \<Rightarrow>
              (case PyObject_Str w v of
                 Inl f \<Rightarrow> escape w v quotes = Inl f
               | Inr (s, w1) \<Rightarrow>
                   (if \<forall>c\<in>set (unicode_data s).
                         c \<noteq> 38 \<and> c \<noteq> 60 \<and> c \<noteq> 62 \<and> (quotes \<longrightarrow> c \<noteq> 34 \<and> c \<noteq> 39)
                    then escape w v quotes =
                           Markup_call
                             (w1\<lparr>escape_unicode_calls := escape_unicode_calls w + 1\<rparr>) s \<and>
                         (ob_type s = Unicode_Type \<longrightarrow>
                            escape w v quotes =
                              Inr (PyObject (next_addr w1) Markup_Type (unicode_data s)
                                     (Inr (Str_New (unicode_data s))) (Inr Html_Self),
                                   w1\<lparr>escape_unicode_calls := escape_unicode_calls w + 1,
                                      next_addr := next_addr w1 + 1\<rparr>))
                    else (case escape w v quotes of
                            Inr (rv, w') \<Rightarrow>
                              ob_type rv = Markup_Type \<and>
                              unicode_data rv = spec_escape_scalar quotes (unicode_data s) \<and>
                              escape_unicode_calls w' = escape_unicode_calls w + 1
                          | Inl f \<Rightarrow>
                              mem_avail w <
                                length (spec_escape_scalar quotes (unicode_data s))))))"
proof -
  have m: "\<not> PyObject_TypeCheck v Markup_Type" and u: "\<not> PyUnicode_Check v"
    and n: "\<not> (PyLong_CheckExact v \<or> PyFloat_CheckExact v \<or> PyBool_Check v \<or> is_Py_None v)"
    using assms(1) subtype_Long_apart [of "ob_type v"] subtype_Float_apart [of "ob_type v"]
    by (auto simp add: PyObject_TypeCheck_def PyUnicode_Check_def PyLong_CheckExact_def
        PyFloat_CheckExact_def PyBool_Check_def is_Py_None_def)
  show ?thesis
  proof (cases "getattr_html v")
    case (Inr html)
    then show ?thesis using m n by (simp add: escape_def)
  next
    case (Inl e)
    then have t: "escape w v quotes = escape_text w v quotes"
      using m n by (simp add: escape_def)
    show ?thesis
    proof (cases "PyObject_Str w v")
      case f: (Inl f)
      then show ?thesis using Inl t u by (simp add: escape_text_def)
    next
      case r: (Inr r)
      obtain s w1 where r': "r = (s, w1)"
        by (cases r)
      have c: "escape_unicode_calls w1 = escape_unicode_calls w"
        and a: "mem_avail w1 = mem_avail w"
        using r r' not_unicode_not_exact [OF u]
        by (auto simp add: PyObject_Str_def split: sum.splits str_result.splits if_splits)
      have p: "(\<forall>c\<in>set (unicode_data s).
                  c \<noteq> 38 \<and> c \<noteq> 60 \<and> c \<noteq> 62 \<and> (quotes \<longrightarrow> c \<noteq> 34 \<and> c \<noteq> 39)) \<longleftrightarrow>
               (\<forall>c\<in>set (unicode_data s). \<not> substituted quotes c)"
        by (auto simp add: substituted_def)
      have "escape w v quotes = wrap_result (escape_unicode w1 s quotes)"
        using t u r r' by (simp add: escape_text_def)
      then show ?thesis
        using Inl r r' c a
        by (simp add: p wrap_result_escape_unicode Markup_call_exact del: One_nat_def)
    qed
  qed
qed

theorem escape_numeric_subclass_text_path_witness:
  "escape \<lparr>mem_avail = 10, next_addr = 1, escape_unicode_calls = 0\<rparr>
     (PyObject 0 (Derived Long_Type) [] (Inr (Str_New (map of_char ''4<2'')))
        (Inl AttributeError)) True =
   Inr (PyObject 3 Markup_Type (map of_char ''4&lt;2'') (Inr (Str_New (map of_char ''4&lt;2'')))
          (Inr Html_Self),
        \<lparr>mem_avail = 4, next_addr = 4, escape_unicode_calls = 1\<rparr>) \<and>
   escape \<lparr>mem_avail = 10, next_addr = 1, escape_unicode_calls = 0\<rparr>
     (PyObject 0 (Derived Float_Type) [] (Inr (Str_New (map of_char ''1.5'')))
        (Inr (Html_Call (Inr (unicode_object 9 (map of_char ''<i>1.5</i>'')))))) True =
   Inr (unicode_object 9 (map of_char ''<i>1.5</i>''),
        \<lparr>mem_avail = 10, next_addr = 1, escape_unicode_calls = 0\<rparr>) \<and>
   escape \<lparr>mem_avail = 10, next_addr = 1, escape_unicode_calls = 0\<rparr>
     (PyObject 0 (Derived Long_Type) []
        (Inr (Str_Existing
           (PyObject 5 (Derived Unicode_Type) (map of_char ''plain'')
              (Inr (Str_New (map of_char ''<evil>''))) (Inl AttributeError))))
        (Inl AttributeError)) True =
   Inr (PyObject 1 Markup_Type (map of_char ''<evil>'')
          (Inr (Str_New (map of_char ''<evil>''))) (Inr Html_Self),
        \<lparr>mem_avail = 10, next_addr = 2, escape_unicode_calls = 1\<rparr>)"
proof -
  let ?w = "\<lparr>mem_avail = 10, next_addr = 1, escape_unicode_calls = 0\<rparr>"
  let ?v1 = "PyObject 0 (Derived Long_Type) [] (Inr (Str_New (map of_char ''4<2'')))
               (Inl AttributeError)"
  let ?v2 = "PyObject 0 (Derived Float_Type) [] (Inr (Str_New (map of_char ''1.5'')))
               (Inr (Html_Call (Inr (unicode_object 9 (map of_char ''<i>1.5</i>'')))))"
  let ?s = "PyObject 5 (Derived Unicode_Type) (map of_char ''plain'')
              (Inr (Str_New (map of_char ''<evil>''))) (Inl AttributeError)"
  let ?v3 = "PyObject 0 (Derived Long_Type) [] (Inr (Str_Existing ?s)) (Inl AttributeError)"
  have a1: "(PyType_IsSubtype (ob_type ?v1) Long_Type \<and> ob_type ?v1 \<noteq> Long_Type \<and>
             ob_type ?v1 \<noteq> Bool_Type) \<or>
            (PyType_IsSubtype (ob_type ?v1) Float_Type \<and> ob_type ?v1 \<noteq> Float_Type)"
    by (simp add: PyType_IsSubtype_def)
  have a2: "(PyType_IsSubtype (ob_type ?v2) Long_Type \<and> ob_type ?v2 \<noteq> Long_Type \<and>
             ob_type ?v2 \<noteq> Bool_Type) \<or>
            (PyType_IsSubtype (ob_type ?v2) Float_Type \<and> ob_type ?v2 \<noteq> Float_Type)"
    by (simp add: PyType_IsSubtype_def)
  have a3: "(PyType_IsSubtype (ob_type ?v3) Long_Type \<and> ob_type ?v3 \<noteq> Long_Type \<and>
             ob_type ?v3 \<noteq> Bool_Type) \<or>
            (PyType_IsSubtype (ob_type ?v3) Float_Type \<and> ob_type ?v3 \<noteq> Float_Type)"
    by (simp add: PyType_IsSubtype_def)
  have e1: "escape ?w ?v1 True =
   Inr (PyObject 3 Markup_Type (map of_char ''4&lt;2'') (Inr (Str_New (map of_char ''4&lt;2'')))
          (Inr Html_Self),
        \<lparr>mem_avail = 4, next_addr = 4, escape_unicode_calls = 1\<rparr>)"
    by code_simp
  have e2: "escape ?w ?v2 True =
   Inr (unicode_object 9 (map of_char ''<i>1.5</i>''), ?w)"
    using escape_numeric_subclass_text_path [OF a2, of ?w True]
    by (simp add: PyObject_CallObject_def)
  have e3: "escape ?w ?v3 True =
   Inr (PyObject 1 Markup_Type (map of_char ''<evil>'')
          (Inr (Str_New (map of_char ''<evil>''))) (Inr Html_Self),
        \<lparr>mem_avail = 10, next_addr = 2, escape_unicode_calls = 1\<rparr>)"
    using escape_numeric_subclass_text_path [OF a3, of ?w True]
    by (simp add: PyObject_Str_def PyUnicode_Check_def PyType_IsSubtype_def Markup_call_def
        unicode_object_def)
  show ?thesis
    using escape_numeric_subclass_text_path [OF a1, of ?w True] e1 e2 e3 by simp
qed

end
